theory Spec2Isabelle
  imports Main "HOL-Library.Sublist" "HOL-Library.Multiset"
begin

section \<open>Python strings\<close>

text \<open>
  A Python \<^verbatim>\<open>str\<close> is modelled as a \<^typ>\<open>string\<close>, one \<^typ>\<open>char\<close> per code point
  (code points 0 to 255). \<^verbatim>\<open>str.split()\<close> with no argument separates at runs of
  whitespace; below 256 the whitespace code points are 9 to 13, 28 to 32, 133 and 160.
\<close>

definition is_space :: "char \<Rightarrow> bool" where
  "is_space c = (of_char c \<in> {9, 10, 11, 12, 13, 28, 29, 30, 31, 32, 133, 160 :: nat})"

text \<open>
  \<^verbatim>\<open>s.split()\<close>: scan left to right, \<open>cur\<close> is the token being read; a whitespace
  character closes it, and empty tokens are never produced.
\<close>

fun split_from :: "string \<Rightarrow> string \<Rightarrow> string list" where
  "split_from cur [] = (if cur = [] then [] else [cur])"
| "split_from cur (c # cs) =
     (if is_space c then (if cur = [] then split_from [] cs else cur # split_from [] cs)
      else split_from (cur @ [c]) cs)"

definition split :: "string \<Rightarrow> string list" where
  "split s = split_from [] s"

text \<open>
  \<^verbatim>\<open>s.replace(old, new)\<close>: every occurrence of \<open>old\<close> found scanning left to right,
  without overlap and without rescanning what was written, is replaced by \<open>new\<close>. With an
  empty \<open>old\<close> Python inserts \<open>new\<close> before every character and at the end.
\<close>

function replace :: "string \<Rightarrow> string \<Rightarrow> string \<Rightarrow> string" where
  "replace s old new =
     (if old = [] then new @ concat (map (\<lambda>c. c # new) s)
      else if s = [] then []
      else if prefix old s then new @ replace (drop (length old) s) old new
      else hd s # replace (tl s) old new)"
  by pat_completeness auto
termination
  by (relation "measure (\<lambda>(s, old, new). length s)") auto

text \<open>\<^verbatim>\<open>str(n)\<close> for a non-negative integer: its decimal digits.\<close>

definition digit :: "nat \<Rightarrow> char" where
  "digit d = char_of (48 + d)"

function str_nat :: "nat \<Rightarrow> string" where
  "str_nat n = (if n < 10 then [digit n] else str_nat (n div 10) @ [digit (n mod 10)])"
  by pat_completeness auto
termination
  by (relation "measure id") auto

section \<open>Exceptions and logging\<close>

text \<open>
  The exceptions the program distinguishes, each with the text \<^verbatim>\<open>str(e)\<close> gives.
  \<open>OtherException\<close> stands for every other subclass of \<^verbatim>\<open>Exception\<close> a library call
  may raise.
\<close>

datatype exn =
    TimeoutException string
  | NoSuchElementException string
  | IndexError string
  | AttributeError string
  | OtherException string

fun str :: "exn \<Rightarrow> string" where
  "str (TimeoutException m) = m"
| "str (NoSuchElementException m) = m"
| "str (IndexError m) = m"
| "str (AttributeError m) = m"
| "str (OtherException m) = m"

fun is_TimeoutException :: "exn \<Rightarrow> bool" where
  "is_TimeoutException (TimeoutException m) = True"
| "is_TimeoutException e = False"

fun is_NoSuchElementException :: "exn \<Rightarrow> bool" where
  "is_NoSuchElementException (NoSuchElementException m) = True"
| "is_NoSuchElementException e = False"

datatype level = DEBUG | INFO | WARNING | ERROR

fun levelno :: "level \<Rightarrow> nat" where
  "levelno DEBUG = 10"
| "levelno INFO = 20"
| "levelno WARNING = 30"
| "levelno ERROR = 40"

type_synonym log = "(level \<times> string) list"

text \<open>
  \<^verbatim>\<open>logging.basicConfig(level=logging.INFO)\<close>: a call below INFO emits nothing. A log is
  the list of emitted lines, oldest first.
\<close>

definition logger :: "level \<Rightarrow> string \<Rightarrow> log" where
  "logger lvl msg = (if levelno INFO \<le> levelno lvl then [(lvl, msg)] else [])"

section \<open>Configuration constants\<close>

definition OUTPUT_FILENAME :: string where
  "OUTPUT_FILENAME = ''notaries_data.xlsx''"


section \<open>Records\<close>

text \<open>
  The dictionary built by \<^verbatim>\<open>get_notary_details\<close> has five fixed keys. The four
  persisted ones form a \<open>row\<close>; the record with its \<open>index\<close> is a \<open>detail\<close>, and
  \<open>row.truncate\<close> drops the index.
\<close>

record row =
  Full_Name :: string
  First_Name :: string
  Email :: string
  Country :: string

record detail = row +
  index :: nat

section \<open>The detail extractor: \<^verbatim>\<open>get_notary_details\<close>\<close>

text \<open>
  What one browser session shows of a profile page, as far as the function looks:
  \<^item> \<open>load\<close>: \<^verbatim>\<open>driver.get\<close>, the settle delay and the wait for the title; \<open>None\<close>
    when the title appeared, \<open>Some e\<close> when one of them raised \<open>e\<close>;
  \<^item> \<open>country_node\<close>: \<^verbatim>\<open>find_element(XPATH_COUNTRY).text\<close>, its text or the exception;
  \<^item> \<open>mail_link\<close>: \<^verbatim>\<open>find_element(XPATH_EMAIL).get_attribute("href")\<close>, where
    \<open>Inr None\<close> is an element without that attribute.
  A session is \<open>Inl e\<close> when \<^verbatim>\<open>setup_driver()\<close> itself raised \<open>e\<close>.
\<close>

record page =
  load :: "exn option"
  country_node :: "exn + string"
  mail_link :: "exn + string option"

type_synonym session = "exn + page"

text \<open>Lines 103 to 108: the country, or the empty string when the element is not found.\<close>

definition extract_country :: "page \<Rightarrow> string \<Rightarrow> (exn + string) \<times> log" where
  "extract_country p full_name =
     (case country_node p of
        Inr text \<Rightarrow>
          (case split text of
             [] \<Rightarrow> (Inl (IndexError ''list index out of range''), [])
           | t # ts \<Rightarrow> (Inr (last (t # ts)), []))
      | Inl e \<Rightarrow>
          if is_NoSuchElementException e
          then (Inr [], logger WARNING (''Country not found for '' @ full_name))
          else (Inl e, []))"

text \<open>Lines 111 to 116: the email, or the empty string when the element is not found.\<close>

definition extract_email :: "page \<Rightarrow> string \<Rightarrow> (exn + string) \<times> log" where
  "extract_email p full_name =
     (case mail_link p of
        Inr None \<Rightarrow>
          (Inl (AttributeError ''NoneType object has no attribute replace''), [])
      | Inr (Some href) \<Rightarrow> (Inr (replace href ''mailto:'' []), [])
      | Inl e \<Rightarrow>
          if is_NoSuchElementException e
          then (Inr [], logger DEBUG (''Email not found for '' @ full_name))
          else (Inl e, []))"

text \<open>Line 122: \<^verbatim>\<open>full_name.split()[0] if full_name else ""\<close>.\<close>

definition first_name_of :: "string \<Rightarrow> exn + string" where
  "first_name_of full_name =
     (if full_name = [] then Inr []
      else (case split full_name of
              [] \<Rightarrow> Inl (IndexError ''list index out of range'')
            | t # ts \<Rightarrow> Inr t))"

text \<open>
  The body of the \<^verbatim>\<open>try\<close> (lines 94 to 128): the record to enqueue or the exception
  that left the body, with the lines logged on the way.
\<close>

definition scrape :: "page \<Rightarrow> string \<Rightarrow> nat \<Rightarrow> (exn + detail) \<times> log" where
  "scrape p full_name idx =
     (case load p of
        Some e \<Rightarrow> (Inl e, [])
      | None \<Rightarrow>
          (case extract_country p full_name of
             (Inl e, l1) \<Rightarrow> (Inl e, l1)
           | (Inr country, l1) \<Rightarrow>
               (case extract_email p full_name of
                  (Inl e, l2) \<Rightarrow> (Inl e, l1 @ l2)
                | (Inr email, l2) \<Rightarrow>
                    (case first_name_of full_name of
                       Inl e \<Rightarrow> (Inl e, l1 @ l2)
                     | Inr first \<Rightarrow>
                         (Inr \<lparr>Full_Name = full_name, First_Name = first, Email = email,
                               Country = country, index = idx\<rparr>,
                          l1 @ l2 @
                          logger DEBUG (''Successfully scraped data for '' @ full_name))))))"

text \<open>
  \<^verbatim>\<open>get_notary_details(url, result_queue, full_name, index)\<close>: what the call puts on
  the queue, in order, and what it logs. \<open>Some r\<close> is a record, \<open>None\<close> the sentinel put by
  the two handlers. \<^verbatim>\<open>setup_driver()\<close> is called before the \<^verbatim>\<open>try\<close>: when it raises,
  the exception leaves the function and nothing is put.
\<close>

definition get_notary_details ::
  "session \<Rightarrow> string \<Rightarrow> string \<Rightarrow> nat \<Rightarrow> detail option list \<times> log" where
  "get_notary_details s url full_name idx =
     (case s of
        Inl e \<Rightarrow> ([], [])
      | Inr p \<Rightarrow>
          (case scrape p full_name idx of
             (Inr r, l) \<Rightarrow> ([Some r], l)
           | (Inl e, l) \<Rightarrow>
               if is_TimeoutException e
               then ([None], l @ logger ERROR
                       (''Timeout while loading page for '' @ full_name @ '': '' @ url))
               else ([None], l @ logger ERROR
                       (''Error scraping '' @ full_name @ '': '' @ str e))))"

section \<open>The persistence merger: \<^verbatim>\<open>save_to_excel\<close>\<close>

text \<open>
  The workbook holds the four named columns, so its contents are a list of rows; the file
  is \<open>None\<close> while it does not exist. Cells are strings and a row is read back as it was
  written (the type inference of \<^verbatim>\<open>read_excel\<close> on cells that look empty or numeric is
  not modelled). A \<^verbatim>\<open>DataFrame\<close> row carries the \<open>index\<close> cell beside the four
  columns, \<open>None\<close> where the cell is missing (NaN): the rows read from the file have no
  \<open>index\<close> column, so \<^verbatim>\<open>pd.concat\<close> fills it with NaN for them.
\<close>

type_synonym store = "row list option"

type_synonym frame = "(nat option \<times> row) list"

text \<open>
  What the file system does during one call: \<^verbatim>\<open>read_excel\<close> may raise, \<^verbatim>\<open>to_excel\<close>
  may raise (leaving the file in the state \<open>to_excel_leaves\<close>), and the workbook calls of
  \<^verbatim>\<open>format_excel\<close> may raise.
\<close>

record io =
  read_excel_raises :: "exn option"
  to_excel_raises :: "exn option"
  to_excel_leaves :: store
  format_raises :: "exn option"

definition DataFrame :: "detail list \<Rightarrow> frame" where
  "DataFrame new_data = map (\<lambda>d. (Some (index d), row.truncate d)) new_data"

definition read_excel :: "io \<Rightarrow> row list \<Rightarrow> exn + frame" where
  "read_excel env rows =
     (case read_excel_raises env of
        Some e \<Rightarrow> Inl e
      | None \<Rightarrow> Inr (map (\<lambda>r. (None, r)) rows))"

text \<open>
  \<^verbatim>\<open>drop_duplicates()\<close>: a row equal in every column (the index among them, NaN equal
  to NaN) to an earlier row is removed; the first occurrence stays.
\<close>

fun drop_duplicates :: "'a list \<Rightarrow> 'a list" where
  "drop_duplicates [] = []"
| "drop_duplicates (x # xs) = x # drop_duplicates (filter (\<lambda>y. y \<noteq> x) xs)"

text \<open>
  \<^verbatim>\<open>sort_values("index")\<close>: the rows with an index in ascending order, then the rows
  whose index is missing, in the order they had. Rows of equal index are kept here in the
  order they had; pandas promises no order among them.
\<close>

definition sort_values :: "frame \<Rightarrow> frame" where
  "sort_values df =
     sort_key (\<lambda>x. case fst x of Some i \<Rightarrow> i | None \<Rightarrow> 0) (filter (\<lambda>x. fst x \<noteq> None) df)
     @ filter (\<lambda>x. fst x = None) df"

definition drop_index :: "frame \<Rightarrow> row list" where
  "drop_index df = map snd df"

text \<open>
  \<^verbatim>\<open>format_excel\<close> changes fills, fonts and widths only, so the rows stay as they are;
  it logs and swallows whatever its body raises.
\<close>

definition format_excel :: "io \<Rightarrow> log" where
  "format_excel env =
     (case format_raises env of
        Some e \<Rightarrow>
          logger ERROR (''Error formatting Excel file '' @ OUTPUT_FILENAME @ '': '' @ str e)
      | None \<Rightarrow> logger DEBUG (''Applied formatting to '' @ OUTPUT_FILENAME))"

text \<open>Lines 191 to 205: the frame to write, or the exception \<^verbatim>\<open>read_excel\<close> raised.\<close>

definition merged :: "io \<Rightarrow> detail list \<Rightarrow> store \<Rightarrow> (exn + row list) \<times> log" where
  "merged env new_data f =
     (case f of
        Some rows \<Rightarrow>
          (case read_excel env rows of
             Inl e \<Rightarrow> (Inl e, [])
           | Inr existing_df \<Rightarrow>
               (Inr (drop_index (sort_values (drop_duplicates (existing_df @ DataFrame new_data)))),
                logger INFO (''Merged with existing data in '' @ OUTPUT_FILENAME)))
      | None \<Rightarrow>
          (Inr (drop_index (sort_values (DataFrame new_data))),
           logger INFO (''Creating new file: '' @ OUTPUT_FILENAME)))"

text \<open>
  \<^verbatim>\<open>save_to_excel(new_data)\<close> with the default file name: \<open>Inr ()\<close> when it returns,
  \<open>Inl e\<close> when it raises \<open>e\<close>; the file afterwards; the lines logged.
\<close>

definition save_to_excel :: "io \<Rightarrow> detail list \<Rightarrow> store \<Rightarrow> (exn + unit) \<times> store \<times> log" where
  "save_to_excel env new_data f =
     (if new_data = [] then (Inr (), f, logger WARNING ''No data to save'')
      else
        (case merged env new_data f of
           (Inl e, l) \<Rightarrow>
             (Inl e, f,
              l @ logger ERROR (''Error saving data to '' @ OUTPUT_FILENAME @ '': '' @ str e))
         | (Inr df, l) \<Rightarrow>
             (case to_excel_raises env of
                Some e \<Rightarrow>
                  (Inl e, to_excel_leaves env,
                   l @ logger ERROR (''Error saving data to '' @ OUTPUT_FILENAME @ '': '' @ str e))
              | None \<Rightarrow>
                  (Inr (), Some df,
                   l @ format_excel env @
                   logger INFO (''Data saved to '' @ OUTPUT_FILENAME @ ''. Total records: ''
                                @ str_nat (length df))))))"

section \<open>The batch coordinator: \<^verbatim>\<open>process_notaries\<close>\<close>









section \<open>The pagination driver: \<^verbatim>\<open>main\<close>\<close>






section \<open>The specification's wording, for comparison\<close>

text \<open>
  The specification says the email is the link's target with the \<^verbatim>\<open>mailto:\<close> scheme
  prefix stripped.
\<close>

definition spec_strip_mailto_prefix :: "string \<Rightarrow> string" where
  "spec_strip_mailto_prefix target =
     (if prefix ''mailto:'' target then drop (length ''mailto:'') target else target)"

text \<open>
  The specification says the combined rows are sorted by ordinal, the existing rows
  keeping the ordinal they had in their own batch.
\<close>

definition spec_sorted_by_ordinal :: "(nat \<times> row) list \<Rightarrow> detail list \<Rightarrow> row list" where
  "spec_sorted_by_ordinal existing new_data =
     map snd (sort_key fst (existing @ map (\<lambda>d. (index d, row.truncate d)) new_data))"

section \<open>Example inputs\<close>

definition healthy_disk :: io where
  "healthy_disk = \<lparr>read_excel_raises = None, to_excel_raises = None,
                   to_excel_leaves = None, format_raises = None\<rparr>"

definition row_AB :: row where
  "row_AB = \<lparr>Full_Name = ''A B'', First_Name = ''A'', Email = ''a@x.com'', Country = ''X''\<rparr>"

definition row_CD :: row where
  "row_CD = \<lparr>Full_Name = ''C D'', First_Name = ''C'', Email = ''c@y.com'', Country = ''Y''\<rparr>"

definition detail_AB :: "nat \<Rightarrow> detail" where
  "detail_AB i = \<lparr>Full_Name = ''A B'', First_Name = ''A'', Email = ''a@x.com'',
                  Country = ''X'', index = i\<rparr>"

definition detail_CD :: "nat \<Rightarrow> detail" where
  "detail_CD i = \<lparr>Full_Name = ''C D'', First_Name = ''C'', Email = ''c@y.com'',
                  Country = ''Y'', index = i\<rparr>"

definition jane_page :: page where
  "jane_page = \<lparr>load = None, country_node = Inr ''Paris, France'',
                mail_link = Inr (Some ''mailto:jane@example.com'')\<rparr>"

definition bare_page :: page where
  "bare_page = \<lparr>load = None, country_node = Inl (NoSuchElementException ''no such element''),
                mail_link = Inl (NoSuchElementException ''no such element'')\<rparr>"

definition blank_country_page :: page where
  "blank_country_page = \<lparr>load = None, country_node = Inr ''  '',
                         mail_link = Inr (Some ''mailto:jane@example.com'')\<rparr>"

definition empty_country_page :: page where
  "empty_country_page = \<lparr>load = None, country_node = Inr [],
                         mail_link = Inr (Some ''mailto:jane@example.com'')\<rparr>"

definition cc_page :: page where
  "cc_page = \<lparr>load = None, country_node = Inr ''Paris, France'',
              mail_link = Inr (Some ''mailto:a@b.c?cc=mailto:d@e.f'')\<rparr>"

definition jane_detail :: "nat \<Rightarrow> detail" where
  "jane_detail i = \<lparr>Full_Name = ''Jane Q. Public'', First_Name = ''Jane'',
                    Email = ''jane@example.com'', Country = ''France'', index = i\<rparr>"











section \<open>Facts about \<open>split\<close>\<close>

text \<open>
  The tokens of a string, read off the string itself: the first one is what follows the
  leading whitespace up to the next whitespace, the last one is the same read from the end.
\<close>

lemma split_from_space: "is_space c \<Longrightarrow> split_from cur (xs @ c # ys) = split_from cur xs @ split_from [] ys"
  by (induction xs arbitrary: cur) auto

lemma split_from_all_space: "\<forall>c\<in>set ws. is_space c \<Longrightarrow> split_from cur ws = (if cur = [] then [] else [cur])"
  by (induction ws arbitrary: cur) auto

lemma split_from_token: "\<forall>c\<in>set t. \<not> is_space c \<Longrightarrow> split_from cur (t @ r) = split_from (cur @ t) r"
  by (induction t arbitrary: cur) auto

lemma split_from_dropWhile: "split_from [] s = split_from [] (dropWhile is_space s)"
  by (induction s) auto

lemma split_from_cur_hd: "cur \<noteq> [] \<Longrightarrow> r = [] \<or> is_space (hd r) \<Longrightarrow> split_from cur r = cur # split_from [] (tl r)"
  by (cases r) auto

lemma split_from_nonempty: "cur \<noteq> [] \<Longrightarrow> split_from cur s \<noteq> []"
  by (induction s arbitrary: cur) auto

lemma split_from_Nil_iff: "split_from [] s = [] \<longleftrightarrow> (\<forall>c\<in>set s. is_space c)"
proof (induction s)
  case Nil
  then show ?case by simp
next
  case (Cons c s)
  then show ?case by (auto simp: split_from_nonempty)
qed

lemma split_Nil_iff: "split s = [] \<longleftrightarrow> (\<forall>c\<in>set s. is_space c)"
  by (simp add: split_def split_from_Nil_iff)

lemma split_hd:
  assumes "split s \<noteq> []"
  shows "hd (split s) = takeWhile (\<lambda>c. \<not> is_space c) (dropWhile is_space s)"
proof -
  let ?d = "dropWhile is_space s"
  let ?t = "takeWhile (\<lambda>c. \<not> is_space c) ?d"
  let ?r = "dropWhile (\<lambda>c. \<not> is_space c) ?d"
  have ne: "?d \<noteq> []"
    using assms by (auto simp: split_Nil_iff)
  then have "\<not> is_space (hd ?d)"
    by (metis hd_dropWhile)
  with ne have t: "?t \<noteq> []"
    by (cases ?d) auto
  have r: "?r = [] \<or> is_space (hd ?r)"
    using hd_dropWhile [of "\<lambda>c. \<not> is_space c" ?d] by auto
  have "split s = split_from [] (?t @ ?r)"
    unfolding split_def by (subst split_from_dropWhile) simp
  also have "\<dots> = split_from ?t ?r"
    by (subst split_from_token) (auto dest: set_takeWhileD)
  also have "\<dots> = ?t # split_from [] (tl ?r)"
    using t r by (rule split_from_cur_hd)
  finally show ?thesis by simp
qed

lemma split_last_decomp:
  assumes t: "t \<noteq> []" "\<forall>c\<in>set t. \<not> is_space c"
    and ws: "\<forall>c\<in>set ws. is_space c"
    and pre: "pre = [] \<or> is_space (last pre)"
  shows "split (pre @ t @ ws) \<noteq> [] \<and> last (split (pre @ t @ ws)) = t"
proof -
  have tw: "split_from [] (t @ ws) = [t]"
    using t ws by (simp add: split_from_token split_from_all_space)
  show ?thesis
  proof (cases "pre = []")
    case True
    then show ?thesis by (simp add: split_def tw)
  next
    case False
    with pre have sp: "is_space (last pre)" by simp
    from False have "pre = butlast pre @ [last pre]" by simp
    then have eq: "pre @ t @ ws = butlast pre @ last pre # (t @ ws)"
      by (metis append_Cons append_Nil append_assoc)
    have "split_from [] (butlast pre @ last pre # (t @ ws)) = split_from [] (butlast pre) @ [t]"
      using split_from_space [OF sp, of "[]" "butlast pre" "t @ ws"] tw by simp
    then have "split (pre @ t @ ws) = split_from [] (butlast pre) @ [t]"
      unfolding split_def eq .
    then show ?thesis by simp
  qed
qed

lemma split_last:
  assumes "split s \<noteq> []"
  shows "last (split s) = rev (takeWhile (\<lambda>c. \<not> is_space c) (dropWhile is_space (rev s)))"
proof -
  let ?n = "\<lambda>c. \<not> is_space c"
  let ?d = "dropWhile is_space (rev s)"
  let ?w = "takeWhile is_space (rev s)"
  let ?t = "takeWhile ?n ?d"
  let ?r = "dropWhile ?n ?d"
  have "\<not> (\<forall>c\<in>set (rev s). is_space c)"
    using assms by (simp add: split_Nil_iff)
  then have ne: "?d \<noteq> []" by (simp add: dropWhile_eq_Nil_conv)
  then have "\<not> is_space (hd ?d)" by (metis hd_dropWhile)
  with ne have t: "rev ?t \<noteq> []" by (cases ?d) auto
  have tn: "\<forall>c\<in>set (rev ?t). \<not> is_space c" by (auto dest: set_takeWhileD)
  have wsp: "\<forall>c\<in>set (rev ?w). is_space c" by (auto dest: set_takeWhileD)
  have r: "rev ?r = [] \<or> is_space (last (rev ?r))"
    using hd_dropWhile [of ?n ?d] by (cases "?r = []") (auto simp: last_rev)
  have "rev s = ?w @ ?t @ ?r" by simp
  then have "s = rev ?r @ rev ?t @ rev ?w"
    by (metis append_assoc rev_append rev_rev_ident)
  then have "last (split s) = last (split (rev ?r @ rev ?t @ rev ?w))" by simp
  also have "\<dots> = rev ?t"
    using split_last_decomp [OF t tn wsp r] by simp
  finally show ?thesis .
qed

section \<open>Facts about \<open>replace\<close> and the extractor\<close>

declare replace.simps [simp del]

lemma replace_Nil: "old \<noteq> [] \<Longrightarrow> replace [] old new = []"
  by (simp add: replace.simps)

lemma replace_prefix: "old \<noteq> [] \<Longrightarrow> replace (old @ rest) old new = new @ replace rest old new"
  by (subst replace.simps) simp

lemma replace_no_occurrence: "old \<noteq> [] \<Longrightarrow> \<not> sublist old s \<Longrightarrow> replace s old new = s"
proof (induction s)
  case Nil
  then show ?case by (simp add: replace_Nil)
next
  case (Cons c s)
  then have "\<not> prefix old (c # s)" and "\<not> sublist old s"
    by (auto simp: sublist_Cons_right)
  with Cons show ?case
    by (subst replace.simps) simp
qed

lemma scrape_cases:
  "scrape p full_name idx = (Inr r, l) \<Longrightarrow>
     load p = None \<and> fst (extract_country p full_name) = Inr (Country r)
     \<and> fst (extract_email p full_name) = Inr (Email r)
     \<and> first_name_of full_name = Inr (First_Name r) \<and> Full_Name r = full_name \<and> index r = idx"
  by (auto simp: scrape_def split: option.splits prod.splits sum.splits)

lemma scrape_ok:
  "load p = None \<Longrightarrow> extract_country p full_name = (Inr c, l1) \<Longrightarrow>
   extract_email p full_name = (Inr e, l2) \<Longrightarrow> first_name_of full_name = Inr f \<Longrightarrow>
   scrape p full_name idx =
     (Inr \<lparr>Full_Name = full_name, First_Name = f, Email = e, Country = c, index = idx\<rparr>,
      l1 @ l2 @ logger DEBUG (''Successfully scraped data for '' @ full_name))"
  by (simp add: scrape_def)

lemma get_notary_details_Some:
  "fst (get_notary_details s url full_name idx) = [Some r] \<longleftrightarrow>
     (\<exists>p l. s = Inr p \<and> scrape p full_name idx = (Inr r, l))"
  by (auto simp: get_notary_details_def split: sum.splits prod.splits)

lemma get_notary_details_fail:
  "fst (scrape p full_name idx) = Inl e \<Longrightarrow>
     fst (get_notary_details (Inr p) url full_name idx) = [None]
     \<and> (\<exists>m. last (snd (get_notary_details (Inr p) url full_name idx)) = (ERROR, m))"
  by (auto simp: get_notary_details_def logger_def split: sum.splits prod.splits)

lemma first_name_of_token:
  "first_name_of full_name = Inr f \<Longrightarrow>
     f = (if full_name = [] then [] else takeWhile (\<lambda>c. \<not> is_space c) (dropWhile is_space full_name))"
  using split_hd [of full_name]
  by (auto simp: first_name_of_def split: if_splits list.splits)

lemma first_name_of_blank:
  "full_name \<noteq> [] \<Longrightarrow> \<forall>c\<in>set full_name. is_space c \<Longrightarrow>
     first_name_of full_name = Inl (IndexError ''list index out of range'')"
  using split_Nil_iff [of full_name] by (simp add: first_name_of_def)

lemma extract_country_blank:
  "country_node p = Inr ntext \<Longrightarrow> \<forall>c\<in>set ntext. is_space c \<Longrightarrow>
     extract_country p full_name = (Inl (IndexError ''list index out of range''), [])"
  using split_Nil_iff [of ntext] by (simp add: extract_country_def)

lemma extract_country_token:
  "country_node p = Inr ntext \<Longrightarrow> \<not> (\<forall>c\<in>set ntext. is_space c) \<Longrightarrow>
     extract_country p full_name =
       (Inr (rev (takeWhile (\<lambda>c. \<not> is_space c) (dropWhile is_space (rev ntext)))), [])"
  using split_Nil_iff [of ntext] split_last [of ntext]
  by (auto simp: extract_country_def split: list.splits)

lemma extract_country_absent:
  "country_node p = Inl (NoSuchElementException m) \<Longrightarrow>
     extract_country p full_name = (Inr [], [(WARNING, ''Country not found for '' @ full_name)])"
  by (simp add: extract_country_def logger_def)

lemma extract_email_present:
  "mail_link p = Inr (Some href) \<Longrightarrow>
     extract_email p full_name = (Inr (replace href ''mailto:'' []), [])"
  by (simp add: extract_email_def)

lemma extract_email_absent:
  "mail_link p = Inl (NoSuchElementException m) \<Longrightarrow> extract_email p full_name = (Inr [], [])"
  by (simp add: extract_email_def logger_def)

lemma scrape_blank_name:
  assumes "full_name \<noteq> []" "\<forall>c\<in>set full_name. is_space c"
  shows "\<exists>e. fst (scrape p full_name idx) = Inl e"
  using first_name_of_blank [OF assms]
  by (auto simp: scrape_def split: option.splits prod.splits sum.splits)

lemma scrape_blank_country:
  assumes "country_node p = Inr ntext" "\<forall>c\<in>set ntext. is_space c"
  shows "\<exists>e. fst (scrape p full_name idx) = Inl e"
  using extract_country_blank [OF assms, of full_name]
  by (auto simp: scrape_def split: option.splits prod.splits sum.splits)

lemma record_email:
  "fst (get_notary_details (Inr p) url full_name idx) = [Some r] \<Longrightarrow>
     fst (extract_email p full_name) = Inr (Email r)"
  unfolding get_notary_details_Some using scrape_cases by blast

section \<open>The extractor's claims\<close>

text \<open>
  Claim C7. Every record the extractor produces carries the full name it was given, and its
  first name is the first whitespace-delimited token of that name: what follows the
  leading whitespace up to the next whitespace character. For the empty name it is the
  empty string.
\<close>
theorem first_name_is_first_token:
  assumes "fst (get_notary_details s url full_name idx) = [Some r]"
  shows "Full_Name r = full_name \<and>
         First_Name r =
           (if full_name = [] then []
            else takeWhile (\<lambda>c. \<not> is_space c) (dropWhile is_space full_name))"
proof -
  from assms obtain p l where "scrape p full_name idx = (Inr r, l)"
    by (auto simp: get_notary_details_Some)
  then have "first_name_of full_name = Inr (First_Name r)" and "Full_Name r = full_name"
    by (auto dest: scrape_cases)
  then show ?thesis
    by (auto dest: first_name_of_token)
qed

theorem first_name_is_first_token_witness:
  "fst (get_notary_details (Inr jane_page) ''u'' ''Jane Q. Public'' 0) = [Some (jane_detail 0)]
   \<and> First_Name (jane_detail 0) = ''Jane''
   \<and> takeWhile (\<lambda>c. \<not> is_space c) (dropWhile is_space ''Jane Q. Public'') = ''Jane''
   \<and> (\<exists>r. fst (get_notary_details (Inr bare_page) ''u'' [] 0) = [Some r] \<and> First_Name r = [])"
proof -
  have h1: "fst (get_notary_details (Inr jane_page) ''u'' ''Jane Q. Public'' 0) = [Some (jane_detail 0)]"
    by (simp add: get_notary_details_def scrape_def extract_country_def extract_email_def
        first_name_of_def split_def is_space_def jane_page_def jane_detail_def logger_def
        replace.simps)
  have h2: "fst (get_notary_details (Inr bare_page) ''u'' [] 0)
              = [Some \<lparr>Full_Name = [], First_Name = [], Email = [], Country = [], index = 0\<rparr>]"
    by (simp add: get_notary_details_def scrape_def extract_country_def extract_email_def
        first_name_of_def bare_page_def logger_def)
  show ?thesis
    using h1 h2 first_name_is_first_token [OF h1] first_name_is_first_token [OF h2]
    by (simp add: jane_detail_def)
qed

text \<open>
  Claim C9. A full name that is not empty and holds whitespace only yields no record: once
  the browser session has started, the call puts exactly the failure sentinel on the queue
  and its last log line is an error; when \<^verbatim>\<open>setup_driver()\<close> itself raises, nothing is
  put at all. Either way there is no record with an empty first name.
\<close>
theorem blank_name_gives_no_record:
  assumes "full_name \<noteq> []" and "\<forall>c\<in>set full_name. is_space c"
  shows "fst (get_notary_details (Inr p) url full_name idx) = [None]
         \<and> (\<exists>m. last (snd (get_notary_details (Inr p) url full_name idx)) = (ERROR, m))
         \<and> fst (get_notary_details (Inl e) url full_name idx) = []"
proof -
  from scrape_blank_name [OF assms] obtain e' where "fst (scrape p full_name idx) = Inl e'"
    by blast
  then show ?thesis
    using get_notary_details_fail [of p full_name idx e' url]
    by (simp add: get_notary_details_def)
qed

theorem blank_name_gives_no_record_witness:
  "'' '' \<noteq> [] \<and> list_all is_space '' ''
   \<and> get_notary_details (Inr jane_page) ''u'' '' '' 0
       = ([None], [(ERROR, ''Error scraping  : list index out of range'')])"
proof -
  have a: "'' '' \<noteq> []" by simp
  have b: "\<forall>c\<in>set '' ''. is_space c" by (simp add: is_space_def)
  have c: "get_notary_details (Inr jane_page) ''u'' '' '' 0
       = ([None], [(ERROR, ''Error scraping  : list index out of range'')])"
    by (simp add: get_notary_details_def scrape_def extract_country_def extract_email_def
        first_name_of_def split_def is_space_def jane_page_def logger_def replace.simps)
  show ?thesis
    using a b c blank_name_gives_no_record [OF a b, where p = jane_page and url = "''u''" and idx = 0]
    by (simp add: list_all_iff)
qed

text \<open>
  Claim C10. When the country node is present and its text has no token (it is empty or
  whitespace only), the whole extraction fails: the call puts the failure sentinel on the
  queue, not a record with an empty country, and its last log line is an error.
\<close>
theorem blank_country_gives_no_record:
  assumes "country_node p = Inr ntext" and "\<forall>c\<in>set ntext. is_space c"
  shows "fst (get_notary_details (Inr p) url full_name idx) = [None]
         \<and> (\<exists>m. last (snd (get_notary_details (Inr p) url full_name idx)) = (ERROR, m))"
proof -
  from scrape_blank_country [OF assms] obtain e where "fst (scrape p full_name idx) = Inl e"
    by blast
  then show ?thesis
    by (rule get_notary_details_fail)
qed

theorem blank_country_gives_no_record_witness:
  "country_node blank_country_page = Inr ''  '' \<and> list_all is_space ''  ''
   \<and> get_notary_details (Inr blank_country_page) ''u'' ''Jane Q. Public'' 0
       = ([None], [(ERROR, ''Error scraping Jane Q. Public: list index out of range'')])"
proof -
  have a: "country_node blank_country_page = Inr ''  ''" by (simp add: blank_country_page_def)
  have b: "\<forall>c\<in>set ''  ''. is_space c" by (simp add: is_space_def)
  have c: "get_notary_details (Inr blank_country_page) ''u'' ''Jane Q. Public'' 0
       = ([None], [(ERROR, ''Error scraping Jane Q. Public: list index out of range'')])"
    by (simp add: get_notary_details_def scrape_def extract_country_def
        split_def is_space_def blank_country_page_def logger_def)
  show ?thesis
    using a b c blank_country_gives_no_record [OF a b, where url = "''u''" and full_name = "''Jane Q. Public''" and idx = 0]
    by (simp add: list_all_iff)
qed

text \<open>
  Claim C6 says that a record is still produced whenever the country node is present, its
  country being the last token of the text. Line 105 reads
  \<^verbatim>\<open>country_element.text.split()[-1] if country_element else ""\<close>: the fallback to the
  empty string is guarded by the element, which is always truthy once \<^verbatim>\<open>find_element\<close>
  has returned, not by the text, so a text without a token raises \<^verbatim>\<open>IndexError\<close> (line
  122 guards the string itself). On the two pages below the country node is present, with
  the empty text and with two spaces, and every other part of the page is in order: the
  call puts the failure sentinel on the queue, and the notary is lost.
\<close>
theorem country_text_without_token_drops_record:
  "country_node empty_country_page = Inr []
   \<and> get_notary_details (Inr empty_country_page) ''u'' ''Jane Q. Public'' 0
       = ([None], [(ERROR, ''Error scraping Jane Q. Public: list index out of range'')])
   \<and> country_node blank_country_page = Inr ''  ''
   \<and> get_notary_details (Inr blank_country_page) ''u'' ''Jane Q. Public'' 0
       = ([None], [(ERROR, ''Error scraping Jane Q. Public: list index out of range'')])"
  by (simp add: get_notary_details_def scrape_def extract_country_def
      split_def is_space_def blank_country_page_def empty_country_page_def logger_def)

text \<open>
  Outside that case the country is extracted as the specification says. When the page has
  rendered and the rest of the extraction (email, first name) succeeds: a country node
  whose text holds at least one token gives a record whose country is the last
  whitespace-delimited token of that text (the text read from its end: trailing whitespace
  skipped, then up to the next whitespace); an absent country node gives a record whose
  country is the empty string, and a warning is logged.
\<close>
theorem country_is_last_token:
  assumes "load p = None"
    and "fst (extract_email p full_name) = Inr email"
    and "first_name_of full_name = Inr first"
  shows "(country_node p = Inr ntext \<and> \<not> list_all is_space ntext \<longrightarrow>
            (\<exists>r. fst (get_notary_details (Inr p) url full_name idx) = [Some r]
                 \<and> Country r = rev (takeWhile (\<lambda>c. \<not> is_space c) (dropWhile is_space (rev ntext)))))
         \<and> (country_node p = Inl (NoSuchElementException m) \<longrightarrow>
            (\<exists>r. fst (get_notary_details (Inr p) url full_name idx) = [Some r] \<and> Country r = [])
            \<and> (WARNING, ''Country not found for '' @ full_name)
                \<in> set (snd (get_notary_details (Inr p) url full_name idx)))"
proof -
  obtain l2 where e: "extract_email p full_name = (Inr email, l2)"
    using assms(2) by (cases "extract_email p full_name") simp
  have A: "\<exists>r. fst (get_notary_details (Inr p) url full_name idx) = [Some r] \<and> Country r = c"
    if "extract_country p full_name = (Inr c, l1)" for c l1
    using scrape_ok [OF assms(1) that e assms(3), of idx]
    by (simp add: get_notary_details_def)
  have B: "set l1 \<subseteq> set (snd (get_notary_details (Inr p) url full_name idx))"
    if "extract_country p full_name = (Inr c, l1)" for c l1
    using scrape_ok [OF assms(1) that e assms(3), of idx]
    by (simp add: get_notary_details_def)
  show ?thesis
  proof (intro conjI impI)
    assume "country_node p = Inr ntext \<and> \<not> list_all is_space ntext"
    then have "extract_country p full_name =
       (Inr (rev (takeWhile (\<lambda>c. \<not> is_space c) (dropWhile is_space (rev ntext)))), [])"
      by (intro extract_country_token) (auto simp: list_all_iff)
    then show "\<exists>r. fst (get_notary_details (Inr p) url full_name idx) = [Some r]
                 \<and> Country r = rev (takeWhile (\<lambda>c. \<not> is_space c) (dropWhile is_space (rev ntext)))"
      by (rule A)
  next
    assume "country_node p = Inl (NoSuchElementException m)"
    then have c: "extract_country p full_name = (Inr [], [(WARNING, ''Country not found for '' @ full_name)])"
      by (rule extract_country_absent)
    show "\<exists>r. fst (get_notary_details (Inr p) url full_name idx) = [Some r] \<and> Country r = []"
      using c by (rule A)
    show "(WARNING, ''Country not found for '' @ full_name)
                \<in> set (snd (get_notary_details (Inr p) url full_name idx))"
      using B [OF c] by simp
  qed
qed

theorem country_is_last_token_witness:
  "(\<exists>r. fst (get_notary_details (Inr jane_page) ''u'' ''Jane Q. Public'' 0) = [Some r]
        \<and> Country r = ''France'')
   \<and> (\<exists>r. fst (get_notary_details (Inr bare_page) ''u'' ''Jane Q. Public'' 0) = [Some r]
        \<and> Country r = [])
   \<and> (WARNING, ''Country not found for Jane Q. Public'')
        \<in> set (snd (get_notary_details (Inr bare_page) ''u'' ''Jane Q. Public'' 0))"
proof -
  have f: "first_name_of ''Jane Q. Public'' = Inr ''Jane''"
    by (simp add: first_name_of_def split_def is_space_def)
  have j1: "load jane_page = None" by (simp add: jane_page_def)
  have j2: "fst (extract_email jane_page ''Jane Q. Public'') = Inr ''jane@example.com''"
    by (simp add: extract_email_def jane_page_def replace.simps)
  have j3: "country_node jane_page = Inr ''Paris, France'' \<and> \<not> list_all is_space ''Paris, France''"
    by (simp add: jane_page_def is_space_def)
  have j4: "rev (takeWhile (\<lambda>c. \<not> is_space c) (dropWhile is_space (rev ''Paris, France''))) = ''France''"
    by (simp add: is_space_def)
  have b1: "load bare_page = None" by (simp add: bare_page_def)
  have b2: "fst (extract_email bare_page ''Jane Q. Public'') = Inr []"
    by (simp add: extract_email_def bare_page_def logger_def)
  have b3: "country_node bare_page = Inl (NoSuchElementException ''no such element'')"
    by (simp add: bare_page_def)
  show ?thesis
    using country_is_last_token [OF j1 j2 f, where ntext = "''Paris, France''" and url = "''u''" and idx = 0] j3 j4
      country_is_last_token [OF b1 b2 f, where m = "''no such element''" and url = "''u''" and idx = 0] b3
    by simp
qed

text \<open>
  Claim C5, as stated, says the email is the target with the \<^verbatim>\<open>mailto:\<close> prefix stripped.
  The target below is a mail link with a \<^verbatim>\<open>cc\<close> field: the code removes the second
  \<^verbatim>\<open>mailto:\<close> as well, which stripping the prefix does not.
\<close>
theorem email_prefix_strip_counterexample:
  "mail_link cc_page = Inr (Some ''mailto:a@b.c?cc=mailto:d@e.f'')
   \<and> map (map_option Email) (fst (get_notary_details (Inr cc_page) ''u'' ''Jane Q. Public'' 0))
       = [Some ''a@b.c?cc=d@e.f'']
   \<and> spec_strip_mailto_prefix ''mailto:a@b.c?cc=mailto:d@e.f'' = ''a@b.c?cc=mailto:d@e.f''
   \<and> ''a@b.c?cc=d@e.f'' \<noteq> ''a@b.c?cc=mailto:d@e.f''"
proof -
  have r: "replace ''mailto:a@b.c?cc=mailto:d@e.f'' ''mailto:'' [] = ''a@b.c?cc=d@e.f''"
    by code_simp
  have c: "split ''Paris, France'' = [''Paris,'', ''France'']"
    by (simp add: split_def is_space_def)
  have f: "first_name_of ''Jane Q. Public'' = Inr ''Jane''"
    by (simp add: first_name_of_def split_def is_space_def)
  have s: "spec_strip_mailto_prefix ''mailto:a@b.c?cc=mailto:d@e.f'' = ''a@b.c?cc=mailto:d@e.f''"
    by (simp add: spec_strip_mailto_prefix_def)
  show ?thesis
    by (simp add: get_notary_details_def scrape_def extract_country_def extract_email_def
        cc_page_def logger_def r c f s)
qed

text \<open>
  Claim C5, amended. For every page whose mail link is present with target \<open>href\<close>, the
  email the extractor computes, and the email of every record produced for that page, is
  \<open>href\<close> with every occurrence of \<^verbatim>\<open>mailto:\<close> removed (\<open>replace\<close>); so a target without
  the text \<^verbatim>\<open>mailto:\<close> is kept as it is, and a target \<^verbatim>\<open>mailto:\<close> followed by a rest
  that does not contain \<^verbatim>\<open>mailto:\<close> gives that rest. For every page whose mail link is
  absent, the email computed, and the email of every record produced, is the empty string.
\<close>
theorem email_is_target_without_mailto:
  "(mail_link p = Inr (Some href) \<longrightarrow>
      fst (extract_email p full_name) = Inr (replace href ''mailto:'' [])
      \<and> (\<forall>r. fst (get_notary_details (Inr p) url full_name idx) = [Some r]
             \<longrightarrow> Email r = replace href ''mailto:'' [])
      \<and> (\<not> sublist ''mailto:'' href \<longrightarrow> replace href ''mailto:'' [] = href)
      \<and> (href = ''mailto:'' @ rest \<and> \<not> sublist ''mailto:'' rest
           \<longrightarrow> replace href ''mailto:'' [] = rest))
   \<and> (mail_link p = Inl (NoSuchElementException m) \<longrightarrow>
      fst (extract_email p full_name) = Inr []
      \<and> (\<forall>r. fst (get_notary_details (Inr p) url full_name idx) = [Some r] \<longrightarrow> Email r = []))"
proof (intro conjI impI allI)
  have ne: "''mailto:'' \<noteq> []" by simp
  {
    assume h: "mail_link p = Inr (Some href)"
    then show e: "fst (extract_email p full_name) = Inr (replace href ''mailto:'' [])"
      by (simp add: extract_email_present)
    fix r
    assume "fst (get_notary_details (Inr p) url full_name idx) = [Some r]"
    from record_email [OF this] e show "Email r = replace href ''mailto:'' []"
      by simp
  }
  {
    assume "\<not> sublist ''mailto:'' href"
    then show "replace href ''mailto:'' [] = href"
      by (rule replace_no_occurrence [OF ne])
  }
  {
    assume "href = ''mailto:'' @ rest \<and> \<not> sublist ''mailto:'' rest"
    then show "replace href ''mailto:'' [] = rest"
      using replace_prefix [OF ne, of rest "[]"] replace_no_occurrence [OF ne, of rest "[]"]
      by simp
  }
  {
    assume h: "mail_link p = Inl (NoSuchElementException m)"
    then show e: "fst (extract_email p full_name) = Inr []"
      by (simp add: extract_email_absent)
    fix r
    assume "fst (get_notary_details (Inr p) url full_name idx) = [Some r]"
    from record_email [OF this] e show "Email r = []"
      by simp
  }
qed

theorem email_is_target_without_mailto_witness:
  "mail_link jane_page = Inr (Some ''mailto:jane@example.com'')
   \<and> fst (extract_email jane_page ''Jane Q. Public'') = Inr ''jane@example.com''
   \<and> fst (get_notary_details (Inr jane_page) ''u'' ''Jane Q. Public'' 0) = [Some (jane_detail 0)]
   \<and> Email (jane_detail 0) = ''jane@example.com''
   \<and> mail_link bare_page = Inl (NoSuchElementException ''no such element'')
   \<and> fst (extract_email bare_page ''Jane Q. Public'') = Inr []
   \<and> (\<exists>r. fst (get_notary_details (Inr bare_page) ''u'' ''Jane Q. Public'' 0) = [Some r]
          \<and> Email r = [])"
proof -
  have j3: "mail_link jane_page = Inr (Some ''mailto:jane@example.com'')"
    by (simp add: jane_page_def)
  have j5: "\<not> sublist ''mailto:'' ''jane@example.com''"
    by code_simp
  have j4: "''mailto:jane@example.com'' = ''mailto:'' @ ''jane@example.com''
            \<and> \<not> sublist ''mailto:'' ''jane@example.com''"
    using j5 by simp
  have j6: "fst (get_notary_details (Inr jane_page) ''u'' ''Jane Q. Public'' 0)
              = [Some (jane_detail 0)]"
    by code_simp
  have b3: "mail_link bare_page = Inl (NoSuchElementException ''no such element'')"
    by (simp add: bare_page_def)
  have b4: "fst (get_notary_details (Inr bare_page) ''u'' ''Jane Q. Public'' 0)
              = [Some \<lparr>Full_Name = ''Jane Q. Public'', First_Name = ''Jane'', Email = [],
                       Country = [], index = 0\<rparr>]"
    by code_simp
  note j = email_is_target_without_mailto [where p = jane_page
        and href = "''mailto:jane@example.com''" and rest = "''jane@example.com''"
        and full_name = "''Jane Q. Public''" and url = "''u''" and idx = 0]
  note b = email_is_target_without_mailto [where p = bare_page and m = "''no such element''"
        and full_name = "''Jane Q. Public''" and url = "''u''" and idx = 0]
  from j j3 have J: "fst (extract_email jane_page ''Jane Q. Public'')
                       = Inr (replace ''mailto:jane@example.com'' ''mailto:'' [])"
    and Jr: "\<forall>r. fst (get_notary_details (Inr jane_page) ''u'' ''Jane Q. Public'' 0) = [Some r]
                 \<longrightarrow> Email r = replace ''mailto:jane@example.com'' ''mailto:'' []"
    and Jp: "''mailto:jane@example.com'' = ''mailto:'' @ ''jane@example.com''
               \<and> \<not> sublist ''mailto:'' ''jane@example.com''
             \<longrightarrow> replace ''mailto:jane@example.com'' ''mailto:'' [] = ''jane@example.com''"
    by blast+
  from Jp j4 have R: "replace ''mailto:jane@example.com'' ''mailto:'' [] = ''jane@example.com''"
    by blast
  have 1: "fst (extract_email jane_page ''Jane Q. Public'') = Inr ''jane@example.com''"
    using J unfolding R .
  have 2: "Email (jane_detail 0) = ''jane@example.com''"
    using Jr j6 unfolding R by blast
  from b b3 have B: "fst (extract_email bare_page ''Jane Q. Public'') = Inr []"
    and Br: "\<forall>r. fst (get_notary_details (Inr bare_page) ''u'' ''Jane Q. Public'' 0) = [Some r]
                 \<longrightarrow> Email r = []"
    by blast+
  note 3 = B
  have 4: "\<exists>r. fst (get_notary_details (Inr bare_page) ''u'' ''Jane Q. Public'' 0) = [Some r]
          \<and> Email r = []"
    using Br b4 by blast
  from j3 1 j6 2 b3 3 4 show ?thesis by blast
qed

section \<open>Facts about the merge\<close>

lemma set_drop_duplicates: "set (drop_duplicates xs) = set xs"
  by (induction xs rule: drop_duplicates.induct) auto

lemma subseq_drop_duplicates: "subseq (drop_duplicates xs) xs"
proof (induction xs rule: drop_duplicates.induct)
  case 1
  then show ?case by simp
next
  case (2 x xs)
  have "subseq (filter (\<lambda>y. y \<noteq> x) xs) xs" by simp
  with 2 have "subseq (drop_duplicates (filter (\<lambda>y. y \<noteq> x) xs)) xs"
    using subseq_order.order_trans by blast
  then show ?case by simp
qed

lemma drop_duplicates_filter:
  "drop_duplicates (filter P xs) = filter P (drop_duplicates xs)"
proof (induction xs rule: drop_duplicates.induct)
  case 1
  then show ?case by simp
next
  case (2 x xs)
  have c: "filter (\<lambda>y. y \<noteq> x) (filter P xs) = filter P (filter (\<lambda>y. y \<noteq> x) xs)"
    by (auto intro: filter_cong)
  show ?case
  proof (cases "P x")
    case True
    with 2 c show ?thesis by simp
  next
    case False
    then have "filter P xs = filter P (filter (\<lambda>y. y \<noteq> x) xs)"
      by (auto intro: filter_cong)
    with False 2 show ?thesis by simp
  qed
qed

lemma drop_duplicates_append:
  "set xs \<inter> set ys = {} \<Longrightarrow>
     drop_duplicates (xs @ ys) = drop_duplicates xs @ drop_duplicates ys"
proof (induction xs arbitrary: ys rule: drop_duplicates.induct)
  case 1
  then show ?case by simp
next
  case (2 x xs)
  then have "x \<notin> set ys" by auto
  then have f: "filter (\<lambda>y. y \<noteq> x) ys = ys" by (auto intro: filter_True)
  from 2 have "set (filter (\<lambda>y. y \<noteq> x) xs) \<inter> set ys = {}" by auto
  from 2(1) [OF this] f show ?case by simp
qed

lemma drop_duplicates_map:
  "inj_on g (set xs) \<Longrightarrow> drop_duplicates (map g xs) = map g (drop_duplicates xs)"
proof (induction xs rule: drop_duplicates.induct)
  case 1
  then show ?case by simp
next
  case (2 x xs)
  then have i: "inj_on g (set (filter (\<lambda>y. y \<noteq> x) xs))"
    by (auto simp: inj_on_def)
  have "filter (\<lambda>y. y \<noteq> g x) (map g xs) = map g (filter (\<lambda>y. y \<noteq> x) xs)"
    using 2(2) by (induction xs) (auto simp: inj_on_def)
  with 2(1) [OF i] show ?case by simp
qed

lemma insort_key_map:
  "insort_key k (g x) (map g xs) = map g (insort_key (\<lambda>y. k (g y)) x xs)"
  by (induction xs) auto

lemma sort_key_map: "sort_key k (map g xs) = map g (sort_key (\<lambda>y. k (g y)) xs)"
  by (induction xs) (auto simp: insort_key_map)

lemma merged_existing:
  assumes "read_excel_raises env = None"
  shows "fst (merged env new_data (Some rows)) =
           Inr (map row.truncate (sort_key index (drop_duplicates new_data))
                @ drop_duplicates rows)"
proof -
  let ?g = "\<lambda>d::detail. (Some (index d), row.truncate d)"
  let ?n = "\<lambda>r::row. (None :: nat option, r)"
  let ?k = "\<lambda>x::nat option \<times> row. case fst x of Some i \<Rightarrow> i | None \<Rightarrow> 0"
  have inj_g: "inj_on ?g (set new_data)"
    by (auto simp: inj_on_def row.truncate_def intro: detail.equality)
  have inj_n: "inj_on ?n (set rows)"
    by (auto simp: inj_on_def)
  have disj: "set (map ?n rows) \<inter> set (map ?g new_data) = {}"
    by auto
  have J: "drop_duplicates (map ?n rows @ map ?g new_data)
             = map ?n (drop_duplicates rows) @ map ?g (drop_duplicates new_data)"
    using drop_duplicates_append [OF disj]
    by (simp add: drop_duplicates_map [OF inj_g] drop_duplicates_map [OF inj_n])
  have S: "filter (\<lambda>x. fst x \<noteq> None)
             (map ?n (drop_duplicates rows) @ map ?g (drop_duplicates new_data))
             = map ?g (drop_duplicates new_data)"
    by (simp add: filter_map comp_def)
  have N: "filter (\<lambda>x. fst x = None)
             (map ?n (drop_duplicates rows) @ map ?g (drop_duplicates new_data))
             = map ?n (drop_duplicates rows)"
    by (simp add: filter_map comp_def)
  have K: "sort_key ?k (map ?g (drop_duplicates new_data))
             = map ?g (sort_key index (drop_duplicates new_data))"
    by (simp add: sort_key_map)
  have "fst (merged env new_data (Some rows)) =
          Inr (map snd (sort_key ?k (filter (\<lambda>x. fst x \<noteq> None)
                 (drop_duplicates (map ?n rows @ map ?g new_data)))
               @ filter (\<lambda>x. fst x = None) (drop_duplicates (map ?n rows @ map ?g new_data))))"
    using assms
    by (simp add: merged_def read_excel_def DataFrame_def sort_values_def drop_index_def)
  also have "\<dots> = Inr (map snd (map ?g (sort_key index (drop_duplicates new_data))
                         @ map ?n (drop_duplicates rows)))"
    unfolding J S N K ..
  also have "\<dots> = Inr (map row.truncate (sort_key index (drop_duplicates new_data))
                         @ drop_duplicates rows)"
    by (simp add: comp_def)
  finally show ?thesis .
qed

lemma merged_new:
  "fst (merged env new_data None) = Inr (map row.truncate (sort_key index new_data))"
proof -
  let ?g = "\<lambda>d::detail. (Some (index d), row.truncate d)"
  have "filter (\<lambda>x. fst x \<noteq> None) (map ?g new_data) = map ?g new_data"
    by (simp add: filter_map comp_def)
  moreover have "filter (\<lambda>x. fst x = None) (map ?g new_data) = []"
    by (simp add: filter_map comp_def)
  ultimately show ?thesis
    by (simp add: merged_def DataFrame_def sort_values_def drop_index_def sort_key_map comp_def)
qed

lemma save_to_excel_ok:
  assumes "new_data \<noteq> []" "to_excel_raises env = None" "fst (merged env new_data f) = Inr df"
  shows "fst (save_to_excel env new_data f) = Inr ()"
    and "fst (snd (save_to_excel env new_data f)) = Some df"
  using assms by (auto simp: save_to_excel_def split: prod.splits sum.splits)

section \<open>The merger's claims\<close>

lemmas store_eval =
  save_to_excel_def merged_def read_excel_def DataFrame_def sort_values_def drop_index_def
  healthy_disk_def row_AB_def row_CD_def detail_AB_def detail_CD_def row.truncate_def

text \<open>
  Claim C1 says that merging a batch a second time changes nothing. The code removes
  duplicates while the new rows still carry their index and the rows read back carry
  none, so a new row never equals a stored one: the first merge of the batch below stores
  one row, the second merge of the same batch stores it twice.
\<close>
theorem same_batch_twice_duplicates_rows:
  "fst (snd (save_to_excel healthy_disk [detail_AB 0] None)) = Some [row_AB]
   \<and> fst (snd (save_to_excel healthy_disk [detail_AB 0] (Some [row_AB]))) = Some [row_AB, row_AB]
   \<and> Some [row_AB, row_AB] \<noteq> Some [row_AB]"
  by (simp add: store_eval)

text \<open>
  Claim C2 says that no two stored rows are identical after a successful merge. In the
  scenario of the specification (the row of A B stored, a batch with the same row and a new
  one) the merge succeeds and the store holds three rows, two of them identical.
\<close>
theorem merge_leaves_identical_rows:
  "fst (save_to_excel healthy_disk [detail_AB 0, detail_CD 1] (Some [row_AB])) = Inr ()
   \<and> fst (snd (save_to_excel healthy_disk [detail_AB 0, detail_CD 1] (Some [row_AB])))
       = Some [row_AB, row_CD, row_AB]
   \<and> \<not> distinct [row_AB, row_CD, row_AB]"
  by (simp add: store_eval)

text \<open>
  Claim C3, as stated, has the existing rows keep their ordinal as sort key. The row of
  A B is stored from a batch where its ordinal was 0; a batch with C D at ordinal 1 is
  merged next. Sorting both by ordinal puts A B first; the code writes C D first, because
  the stored row has no ordinal any more and rows without one sort last.
\<close>
theorem existing_rows_keep_no_ordinal_counterexample:
  "fst (snd (save_to_excel healthy_disk [detail_AB 0] None)) = Some [row_AB]
   \<and> fst (snd (save_to_excel healthy_disk [detail_CD 1] (Some [row_AB]))) = Some [row_CD, row_AB]
   \<and> spec_sorted_by_ordinal [(0, row_AB)] [detail_CD 1] = [row_AB, row_CD]
   \<and> [row_CD, row_AB] \<noteq> [row_AB, row_CD]"
  by (simp add: store_eval spec_sorted_by_ordinal_def)

text \<open>
  Claim C3, amended. A merge of a non-empty batch into an existing store that can be read
  and written succeeds and writes rows of the four columns only: first rows of the batch,
  in ascending order of their ordinal, then rows of the existing store, in the order they
  were stored; every row of the batch and every existing row is among them.
\<close>
theorem merge_orders_batch_then_existing:
  assumes "new_data \<noteq> []"
    and "read_excel_raises env = None"
    and "to_excel_raises env = None"
  shows "\<exists>ds ys. fst (save_to_excel env new_data (Some rows)) = Inr ()
           \<and> fst (snd (save_to_excel env new_data (Some rows))) = Some (map row.truncate ds @ ys)
           \<and> sorted (map index ds) \<and> set ds \<subseteq> set new_data
           \<and> subseq ys rows
           \<and> set (map row.truncate ds @ ys) = row.truncate ` set new_data \<union> set rows"
proof -
  let ?ds = "sort_key index (drop_duplicates new_data)"
  let ?ys = "drop_duplicates rows"
  have m: "fst (merged env new_data (Some rows)) = Inr (map row.truncate ?ds @ ?ys)"
    using assms(2) by (rule merged_existing)
  have 1: "fst (save_to_excel env new_data (Some rows)) = Inr ()"
    and 2: "fst (snd (save_to_excel env new_data (Some rows))) = Some (map row.truncate ?ds @ ?ys)"
    using save_to_excel_ok [OF assms(1) assms(3) m] by auto
  have 3: "sorted (map index ?ds)" by simp
  have 4: "set ?ds \<subseteq> set new_data" by (simp add: set_drop_duplicates)
  have 5: "subseq ?ys rows" by (rule subseq_drop_duplicates)
  have 6: "set (map row.truncate ?ds @ ?ys) = row.truncate ` set new_data \<union> set rows"
    by (simp add: set_drop_duplicates)
  from 1 2 3 4 5 6 show ?thesis by blast
qed

theorem merge_orders_batch_then_existing_witness:
  "[detail_CD 1, detail_AB 0] \<noteq> []
   \<and> (\<exists>(ds::detail list) ys. fst (snd (save_to_excel healthy_disk [detail_CD 1, detail_AB 0] (Some [row_AB])))
                 = Some (map row.truncate ds @ ys)
             \<and> sorted (map index ds) \<and> subseq ys [row_AB])
   \<and> fst (snd (save_to_excel healthy_disk [detail_CD 1, detail_AB 0] (Some [row_AB])))
       = Some [row_AB, row_CD, row_AB]"
proof -
  have a: "[detail_CD 1, detail_AB 0] \<noteq> []" by simp
  have b: "read_excel_raises healthy_disk = None" by (simp add: healthy_disk_def)
  have c: "to_excel_raises healthy_disk = None" by (simp add: healthy_disk_def)
  have d: "fst (snd (save_to_excel healthy_disk [detail_CD 1, detail_AB 0] (Some [row_AB])))
       = Some [row_AB, row_CD, row_AB]"
    by (simp add: store_eval)
  from merge_orders_batch_then_existing [OF a b c, of "[row_AB]"]
  obtain ds :: "detail list" and ys where
    "fst (snd (save_to_excel healthy_disk [detail_CD 1, detail_AB 0] (Some [row_AB])))
       = Some (map row.truncate ds @ ys)"
    "sorted (map index ds)" "subseq ys [row_AB]"
    by blast
  then have "\<exists>(ds::detail list) ys. fst (snd (save_to_excel healthy_disk [detail_CD 1, detail_AB 0]
                 (Some [row_AB]))) = Some (map row.truncate ds @ ys)
             \<and> sorted (map index ds) \<and> subseq ys [row_AB]"
    by blast
  with a d show ?thesis by blast
qed

section \<open>Facts about failing saves\<close>

lemma merged_Inl:
  "fst (merged env new_data f) = Inl e \<longleftrightarrow> (f \<noteq> None \<and> read_excel_raises env = Some e)"
  by (auto simp: merged_def read_excel_def split: option.splits)

lemma save_to_excel_Inl:
  assumes "fst (save_to_excel env new_data f) = Inl e"
  shows "read_excel_raises env = Some e \<or> to_excel_raises env = Some e"
proof -
  obtain r l where m: "merged env new_data f = (r, l)" by (cases "merged env new_data f")
  show ?thesis
  proof (cases r)
    case (Inl e')
    with m assms have "e' = e"
      by (simp add: save_to_excel_def split: if_splits)
    with Inl m merged_Inl [of env new_data f e] show ?thesis by simp
  next
    case (Inr df)
    with m assms show ?thesis
      by (simp add: save_to_excel_def split: if_splits option.splits)
  qed
qed

lemma save_to_excel_healthy:
  "read_excel_raises env = None \<Longrightarrow> to_excel_raises env = None \<Longrightarrow>
     fst (save_to_excel env new_data f) = Inr ()"
  using save_to_excel_Inl [of env new_data f]
  by (cases "fst (save_to_excel env new_data f)") auto











section \<open>The failure claims of the merger\<close>



section \<open>Facts about the batch coordinator\<close>














section \<open>The batch coordinator's claim\<close>



end
